theory Spec2Isabelle
  imports Complex_Main
begin

section \<open>Data model\<close>

text \<open>
  The views of \<^verbatim>\<open>epi_shops/views.py\<close> work on two tables, \<^verbatim>\<open>Epis\<close> (the catalog) and
  \<^verbatim>\<open>Carrinhos\<close> (the cart lines). The model classes themselves live in
  \<^verbatim>\<open>epi_shops/models.py\<close>; the records below carry the fields the views read and write.
  Prices are Django decimals; they are modelled as exact rationals, quantities as
  unbounded Python integers.
\<close>

type_synonym user_id = nat

text \<open>
  Modelled from the spec: the declaration of the kind discriminator (\<^verbatim>\<open>Carrinhos.tipo\<close>
  and its constants, in \<^verbatim>\<open>models.py\<close>). The views name one constant, \<^verbatim>\<open>Carrinhos.COMPRA\<close>
  (the spec's purchase-request kind); every other kind the column can hold is \<open>OUTRO k\<close>.
\<close>

datatype tipo = COMPRA | OUTRO nat

record Epis =
  epi_pk :: nat
  nome :: string
  descricao :: string
  valor :: rat

record Carrinhos =
  pk :: nat
  usuario :: user_id
  epi :: nat
  quantidade :: int
  tipo :: tipo

text \<open>
  The database: both tables in store order, and the counter from which the cart table
  draws the primary key of a new row.
\<close>

record db =
  epis :: "Epis list"
  carrinhos :: "Carrinhos list"
  next_pk :: nat

text \<open>
  The value of the \<^verbatim>\<open>page\<close> query parameter: text that Python's \<^verbatim>\<open>int\<close> accepts, the
  word \<^verbatim>\<open>last\<close>, or any other text.
\<close>

datatype page_arg = PageInt int | PageLast | PageOther

text \<open>
  A request: the HTTP method \<^verbatim>\<open>request.method\<close>, the authenticated user
  \<^verbatim>\<open>request.user\<close> (\<open>None\<close> for an anonymous request), the query parameters \<^verbatim>\<open>search\<close> and \<^verbatim>\<open>page\<close>, and the posted
  \<^verbatim>\<open>quantidade\<close> (\<open>None\<close> when the field is missing or is not an integer).
\<close>

record request =
  http_method :: string
  user :: "user_id option"
  GET_search :: "string option"
  GET_page :: "page_arg option"
  POST_quantidade :: "int option"

datatype error = Http404 | NameError string | DoesNotExist | MultipleObjectsReturned

datatype message =
  AddedToCart int string
  | RemovedFromCart string
  | QuantityUpdated string

record page =
  object_list :: "Epis list"
  number :: nat
  num_pages :: nat

datatype form = Unbound | Bound "int option"

datatype template_context =
  IndexContext page "Carrinhos list" rat
  | EpiListContext page
  | AddToCartContext form Epis
  | CartContext "Carrinhos list" rat
  | UpdateCartContext form Carrinhos

datatype response =
  Redirect string "message list"
  | Render string template_context

section \<open>The object-relational layer\<close>

text \<open>
  \<^verbatim>\<open>Model.objects.get(...)\<close>: the single row that satisfies the lookup; no row raises
  \<^verbatim>\<open>DoesNotExist\<close>, several raise \<^verbatim>\<open>MultipleObjectsReturned\<close>.
\<close>

definition objects_get :: "('a \<Rightarrow> bool) \<Rightarrow> 'a list \<Rightarrow> error + 'a" where
  "objects_get P rows =
     (case filter P rows of
        [] \<Rightarrow> Inl DoesNotExist
      | [r] \<Rightarrow> Inr r
      | _ \<Rightarrow> Inl MultipleObjectsReturned)"

text \<open>\<^verbatim>\<open>get_object_or_404\<close> turns \<^verbatim>\<open>DoesNotExist\<close>, and only it, into \<^verbatim>\<open>Http404\<close>.\<close>

definition get_object_or_404 :: "('a \<Rightarrow> bool) \<Rightarrow> 'a list \<Rightarrow> error + 'a" where
  "get_object_or_404 P rows =
     (case objects_get P rows of
        Inl DoesNotExist \<Rightarrow> Inl Http404
      | Inl e \<Rightarrow> Inl e
      | Inr r \<Rightarrow> Inr r)"

text \<open>
  \<^verbatim>\<open>Carrinhos.objects.get_or_create(usuario=u, epi=e, tipo=t, defaults={'quantidade': q})\<close>:
  the row found by the three lookup fields and \<open>False\<close>, or, when there is none, a new
  row with the default quantity, appended under a fresh primary key, and \<open>True\<close>.
\<close>

definition get_or_create ::
  "user_id \<Rightarrow> nat \<Rightarrow> tipo \<Rightarrow> int \<Rightarrow> db \<Rightarrow> error + ((Carrinhos \<times> bool) \<times> db)" where
  "get_or_create u e t q s =
     (case objects_get (\<lambda>c. usuario c = u \<and> epi c = e \<and> tipo c = t) (carrinhos s) of
        Inr c \<Rightarrow> Inr ((c, False), s)
      | Inl DoesNotExist \<Rightarrow>
          (let c = \<lparr>pk = next_pk s, usuario = u, epi = e, quantidade = q, tipo = t\<rparr>
           in Inr ((c, True), s\<lparr>carrinhos := carrinhos s @ [c], next_pk := Suc (next_pk s)\<rparr>))
      | Inl err \<Rightarrow> Inl err)"

text \<open>
  \<^verbatim>\<open>instance.save()\<close> on a row that has a primary key: the stored row with that key is
  overwritten; when no row has it, the instance is inserted.
\<close>

definition save :: "Carrinhos \<Rightarrow> db \<Rightarrow> db" where
  "save c s =
     (if pk c \<in> set (map pk (carrinhos s))
      then s\<lparr>carrinhos := map (\<lambda>x. if pk x = pk c then c else x) (carrinhos s)\<rparr>
      else s\<lparr>carrinhos := carrinhos s @ [c]\<rparr>)"

text \<open>\<^verbatim>\<open>instance.delete()\<close>: the rows with the instance's primary key are dropped.\<close>

definition delete :: "Carrinhos \<Rightarrow> db \<Rightarrow> db" where
  "delete c s = s\<lparr>carrinhos := filter (\<lambda>x. pk x \<noteq> pk c) (carrinhos s)\<rparr>"

text \<open>
  \<^verbatim>\<open>item.epi\<close>: following the foreign key of a cart line fetches the catalog row with
  that primary key.
\<close>

definition related_epi :: "db \<Rightarrow> Carrinhos \<Rightarrow> error + Epis" where
  "related_epi s item = objects_get (\<lambda>e. epi_pk e = epi item) (epis s)"

section \<open>Forms and decorators\<close>

text \<open>
  Modelled from the spec: the form \<^verbatim>\<open>AddToCartForm\<close> of \<^verbatim>\<open>epi_shops/forms.py\<close>, which is
  not among the sources. By the spec the quantity must be a positive integer and is the
  one value an update replaces: a bound form is valid exactly when the posted quantity is
  an integer of at least 1, and that integer is its cleaned \<^verbatim>\<open>quantidade\<close>.
\<close>

definition AddToCartForm_cleaned_data :: "int option \<Rightarrow> int option" where
  "AddToCartForm_cleaned_data posted =
     (case posted of
        None \<Rightarrow> None
      | Some q \<Rightarrow> if 1 \<le> q then Some q else None)"

text \<open>
  \<^verbatim>\<open>@login_required\<close> (and \<^verbatim>\<open>LoginRequiredMixin\<close>): an anonymous request is redirected to
  the login page and the view does not run.
\<close>

definition login_required ::
  "request \<Rightarrow> db \<Rightarrow> (user_id \<Rightarrow> (error + response) \<times> db) \<Rightarrow> (error + response) \<times> db" where
  "login_required rq s view =
     (case user rq of
        None \<Rightarrow> (Inr (Redirect ''login'' []), s)
      | Some u \<Rightarrow> view u)"

section \<open>The cart views\<close>

text \<open>
  \<^verbatim>\<open>add_to_cart(request, pk)\<close>. A view returns the response, or the exception that left
  it, together with the database after the request. A quantity the form refuses is an
  error of the field, so the loop over \<^verbatim>\<open>form.non_field_errors()\<close> adds no message.
\<close>

definition add_to_cart :: "request \<Rightarrow> nat \<Rightarrow> db \<Rightarrow> (error + response) \<times> db" where
  "add_to_cart rq epi_id s =
     login_required rq s (\<lambda>u.
       case get_object_or_404 (\<lambda>e. epi_pk e = epi_id) (epis s) of
         Inl err \<Rightarrow> (Inl err, s)
       | Inr e \<Rightarrow>
           if http_method rq = ''POST'' then
             (case AddToCartForm_cleaned_data (POST_quantidade rq) of
                Some q \<Rightarrow>
                  (case get_or_create u (epi_pk e) COMPRA q s of
                     Inl err \<Rightarrow> (Inl err, s)
                   | Inr ((carrinho, created), s1) \<Rightarrow>
                       (Inr (Redirect ''epi_detail'' [AddedToCart q (nome e)]),
                        if \<not> created
                        then save (carrinho\<lparr>quantidade := quantidade carrinho + q\<rparr>) s1
                        else s1))
              | None \<Rightarrow>
                  (Inr (Render ''epi_shops/add_to_cart.html''
                     (AddToCartContext (Bound (POST_quantidade rq)) e)), s))
           else
             (Inr (Render ''epi_shops/add_to_cart.html'' (AddToCartContext Unbound e)), s))"

text \<open>
  \<^verbatim>\<open>sum(item.epi.valor * item.quantidade for item in carrinho_itens)\<close>: Python's \<^verbatim>\<open>sum\<close>
  starts from 0 and adds the terms from left to right; a failing term ends it.
\<close>

fun sum_valor :: "db \<Rightarrow> rat \<Rightarrow> Carrinhos list \<Rightarrow> error + rat" where
  "sum_valor s acc [] = Inr acc"
| "sum_valor s acc (item # itens) =
     (case related_epi s item of
        Inl err \<Rightarrow> Inl err
      | Inr e \<Rightarrow> sum_valor s (acc + valor e * of_int (quantidade item)) itens)"



text \<open>
  \<^verbatim>\<open>remove_from_cart(request, item_id)\<close>. The row is deleted before the message reads
  \<^verbatim>\<open>item.epi.nome\<close>, so a failure there leaves the row deleted.
\<close>

definition remove_from_cart :: "request \<Rightarrow> nat \<Rightarrow> db \<Rightarrow> (error + response) \<times> db" where
  "remove_from_cart rq item_id s =
     login_required rq s (\<lambda>u.
       case get_object_or_404 (\<lambda>c. pk c = item_id \<and> usuario c = u) (carrinhos s) of
         Inl err \<Rightarrow> (Inl err, s)
       | Inr item \<Rightarrow>
           (let s1 = delete item s in
            case related_epi s1 item of
              Inl err \<Rightarrow> (Inl err, s1)
            | Inr e \<Rightarrow> (Inr (Redirect ''view_cart'' [RemovedFromCart (nome e)]), s1)))"

text \<open>
  \<^verbatim>\<open>update_cart(request, item_id)\<close>. \<^verbatim>\<open>form.save()\<close> of the form bound to the line
  writes the cleaned quantity into the line and saves it.
\<close>

definition update_cart :: "request \<Rightarrow> nat \<Rightarrow> db \<Rightarrow> (error + response) \<times> db" where
  "update_cart rq item_id s =
     login_required rq s (\<lambda>u.
       case get_object_or_404 (\<lambda>c. pk c = item_id \<and> usuario c = u) (carrinhos s) of
         Inl err \<Rightarrow> (Inl err, s)
       | Inr item \<Rightarrow>
           if http_method rq = ''POST'' then
             (case AddToCartForm_cleaned_data (POST_quantidade rq) of
                Some q \<Rightarrow>
                  (let s1 = save (item\<lparr>quantidade := q\<rparr>) s in
                   case related_epi s1 item of
                     Inl err \<Rightarrow> (Inl err, s1)
                   | Inr e \<Rightarrow> (Inr (Redirect ''view_cart'' [QuantityUpdated (nome e)]), s1))
              | None \<Rightarrow>
                  (Inr (Render ''epi_shops/update_cart.html''
                     (UpdateCartContext (Bound (POST_quantidade rq)) item)), s))
           else
             (Inr (Render ''epi_shops/update_cart.html'' (UpdateCartContext Unbound item)), s))"

section \<open>Searching and paginating the catalog\<close>

text \<open>
  The lookup \<^verbatim>\<open>field__icontains=q\<close> becomes the database's \<^verbatim>\<open>LIKE\<close> with the query
  between wildcards. The project's settings are not among the sources; on SQLite, the
  backend a Django project starts with, \<^verbatim>\<open>LIKE\<close> folds the capitals A to Z and compares
  every other character exactly, which is what \<open>lower\<close> does. Text is a list of
  characters with code points below 256.
\<close>

definition lower :: "char \<Rightarrow> char" where
  "lower c =
     (if 65 \<le> (of_char c :: nat) \<and> (of_char c :: nat) \<le> 90
      then char_of (of_char c + 32 :: nat) else c)"

fun startswith :: "'a list \<Rightarrow> 'a list \<Rightarrow> bool" where
  "startswith _ [] = True"
| "startswith [] (_ # _) = False"
| "startswith (h # hs) (n # ns) = (h = n \<and> startswith hs ns)"

fun contains :: "'a list \<Rightarrow> 'a list \<Rightarrow> bool" where
  "contains [] needle = (needle = [])"
| "contains (h # hs) needle = (startswith (h # hs) needle \<or> contains hs needle)"

definition icontains :: "string \<Rightarrow> string \<Rightarrow> bool" where
  "icontains field q = contains (map lower field) (map lower q)"







text \<open>
  \<^verbatim>\<open>EpiList.get_queryset\<close>: the whole catalog, filtered when \<^verbatim>\<open>search\<close> is present and
  not empty (\<^verbatim>\<open>if search_query:\<close> is false for \<^verbatim>\<open>None\<close> and for the empty string).
\<close>

definition get_queryset :: "request \<Rightarrow> db \<Rightarrow> Epis list" where
  "get_queryset rq s =
     (case GET_search rq of
        None \<Rightarrow> epis s
      | Some search_query \<Rightarrow>
          if search_query \<noteq> []
          then filter (\<lambda>e. icontains (nome e) search_query \<or> icontains (descricao e) search_query)
                 (epis s)
          else epis s)"

text \<open>
  Django's paginator with no orphans and an empty first page allowed: the number of pages
  is \<open>\<lceil>max 1 count / per_page\<rceil>\<close>, and page \<open>n\<close> is the slice
  \<^verbatim>\<open>object_list[(n - 1) * per_page : top]\<close> with \<open>top\<close> cut at the count.
\<close>

datatype invalid_page = PageNotAnInteger | EmptyPage

definition paginator_num_pages :: "'a list \<Rightarrow> nat \<Rightarrow> nat" where
  "paginator_num_pages queryset per_page =
     (let hits = max 1 (length queryset) in (hits + per_page - 1) div per_page)"

definition paginator_page :: "Epis list \<Rightarrow> nat \<Rightarrow> int \<Rightarrow> invalid_page + page" where
  "paginator_page queryset per_page n =
     (if n < 1 then Inl EmptyPage
      else if n > int (paginator_num_pages queryset per_page) then Inl EmptyPage
      else
        (let bottom = (nat n - 1) * per_page;
             top = (if bottom + per_page \<ge> length queryset then length queryset
                    else bottom + per_page)
         in Inr \<lparr>object_list = take (top - bottom) (drop bottom queryset),
                 number = nat n,
                 num_pages = paginator_num_pages queryset per_page\<rparr>))"

text \<open>
  \<^verbatim>\<open>ListView.paginate_queryset\<close>: the page parameter defaults to 1, \<^verbatim>\<open>last\<close> is the last
  page, any other text that is not an integer is a 404, and so is a page out of range.
\<close>

definition paginate_queryset :: "Epis list \<Rightarrow> nat \<Rightarrow> page_arg option \<Rightarrow> error + page" where
  "paginate_queryset queryset page_size arg =
     (case (case arg of
              None \<Rightarrow> Some 1
            | Some (PageInt n) \<Rightarrow> Some n
            | Some PageLast \<Rightarrow> Some (int (paginator_num_pages queryset page_size))
            | Some PageOther \<Rightarrow> None) of
        None \<Rightarrow> Inl Http404
      | Some page_number \<Rightarrow>
          (case paginator_page queryset page_size page_number of
             Inl _ \<Rightarrow> Inl Http404
           | Inr p \<Rightarrow> Inr p))"

definition paginate_by :: nat where
  "paginate_by = 10"

text \<open>The list view \<^verbatim>\<open>EpiList\<close> answering a GET request.\<close>

definition EpiList :: "request \<Rightarrow> db \<Rightarrow> (error + response) \<times> db" where
  "EpiList rq s =
     login_required rq s (\<lambda>u.
       case paginate_queryset (get_queryset rq s) paginate_by (GET_page rq) of
         Inl err \<Rightarrow> (Inl err, s)
       | Inr page_obj \<Rightarrow> (Inr (Render ''epi_shops/epi_list.html'' (EpiListContext page_obj)), s))"

section \<open>The home page\<close>

text \<open>
  The names bound in the module \<^verbatim>\<open>epi_shops/views.py\<close> once it is loaded: its imports
  (lines 1 to 10) and its own functions and classes. A name that is neither among them nor
  a Python builtin raises \<^verbatim>\<open>NameError\<close> where it is evaluated.
\<close>

definition module_globals :: "string list" where
  "module_globals =
     [''render'', ''redirect'', ''get_object_or_404'',
      ''reverse_lazy'', ''reverse'',
      ''ListView'', ''DetailView'', ''CreateView'', ''UpdateView'', ''DeleteView'',
      ''Epis'', ''Carrinhos'',
      ''EpiForm'', ''AddToCartForm'',
      ''Q'',
      ''LoginRequiredMixin'',
      ''messages'',
      ''login_required'',
      ''HttpResponseRedirect'',
      ''index'', ''EpiList'', ''EpiDetail'', ''EpiCreate'', ''EpiUpdate'', ''EpiDelete'',
      ''add_to_cart'', ''view_cart'', ''remove_from_cart'', ''update_cart'']"

text \<open>The builtin functions and types of Python 3; the other builtins are exceptions,
  warnings and constants.\<close>

definition builtins :: "string list" where
  "builtins =
     [''abs'', ''aiter'', ''all'', ''anext'', ''any'', ''ascii'', ''bin'', ''bool'',
      ''breakpoint'', ''bytearray'', ''bytes'', ''callable'', ''chr'', ''classmethod'',
      ''compile'', ''complex'', ''delattr'', ''dict'', ''dir'', ''divmod'', ''enumerate'',
      ''eval'', ''exec'', ''filter'', ''float'', ''format'', ''frozenset'', ''getattr'',
      ''globals'', ''hasattr'', ''hash'', ''help'', ''hex'', ''id'', ''input'', ''int'',
      ''isinstance'', ''issubclass'', ''iter'', ''len'', ''list'', ''locals'', ''map'',
      ''max'', ''memoryview'', ''min'', ''next'', ''object'', ''oct'', ''open'', ''ord'',
      ''pow'', ''print'', ''property'', ''range'', ''repr'', ''reversed'', ''round'',
      ''set'', ''setattr'', ''slice'', ''sorted'', ''staticmethod'', ''str'', ''sum'',
      ''super'', ''tuple'', ''type'', ''vars'', ''zip'', ''__import__'']"

definition lookup_name :: "string \<Rightarrow> error + unit" where
  "lookup_name name =
     (if name \<in> set module_globals \<or> name \<in> set builtins then Inr ()
      else Inl (NameError name))"

text \<open>
  \<^verbatim>\<open>Paginator.get_page\<close>, the lenient form the home page asks for: text that is not an
  integer gives page 1, a number out of range the last page.
\<close>

definition paginator_get_page :: "Epis list \<Rightarrow> nat \<Rightarrow> page_arg option \<Rightarrow> page" where
  "paginator_get_page queryset per_page arg =
     (let last_page = int (paginator_num_pages queryset per_page);
          n = (case arg of
                 Some (PageInt n) \<Rightarrow> if n < 1 \<or> n > last_page then last_page else n
               | _ \<Rightarrow> 1)
      in case paginator_page queryset per_page n of
           Inr p \<Rightarrow> p
         | Inl _ \<Rightarrow> \<lparr>object_list = [], number = nat n,
                      num_pages = paginator_num_pages queryset per_page\<rparr>)"

text \<open>The rows the home page selects for the cart: all the caller's lines.\<close>

definition index_carrinho_itens :: "user_id \<Rightarrow> db \<Rightarrow> Carrinhos list" where
  "index_carrinho_itens u s = filter (\<lambda>c. usuario c = u) (carrinhos s)"

text \<open>
  \<^verbatim>\<open>index(request)\<close>. Its lines 18 to 24 select the catalog rows as
  \<^verbatim>\<open>EpiList.get_queryset\<close> does; line 26 evaluates the name \<^verbatim>\<open>Paginator\<close> before
  anything is paginated or summed.
\<close>

definition index :: "request \<Rightarrow> db \<Rightarrow> (error + response) \<times> db" where
  "index rq s =
     login_required rq s (\<lambda>u.
       let epis = get_queryset rq s in
       case lookup_name ''Paginator'' of
         Inl err \<Rightarrow> (Inl err, s)
       | Inr _ \<Rightarrow>
           (let page_obj = paginator_get_page epis 10 (GET_page rq);
                carrinho_itens = index_carrinho_itens u s
            in case sum_valor s 0 carrinho_itens of
                 Inl err \<Rightarrow> (Inl err, s)
               | Inr valor_total \<Rightarrow>
                   (Inr (Render ''epi_shops/index.html''
                      (IndexContext page_obj carrinho_itens valor_total)), s)))"

section \<open>Sequences of cart requests\<close>

datatype cart_op =
  Add request nat
  | Update request nat
  | Remove request nat

fun apply_op :: "db \<Rightarrow> cart_op \<Rightarrow> db" where
  "apply_op s (Add rq epi_id) = snd (add_to_cart rq epi_id s)"
| "apply_op s (Update rq item_id) = snd (update_cart rq item_id s)"
| "apply_op s (Remove rq item_id) = snd (remove_from_cart rq item_id s)"

definition run :: "cart_op list \<Rightarrow> db \<Rightarrow> db" where
  "run ops s = foldl apply_op s ops"

text \<open>The store with no cart line, over any catalog.\<close>

definition empty_store :: "Epis list \<Rightarrow> nat \<Rightarrow> db" where
  "empty_store catalog n = \<lparr>epis = catalog, carrinhos = [], next_pk = n\<rparr>"

text \<open>The key of the service's invariant: user, item and kind of a line.\<close>

definition triple :: "Carrinhos \<Rightarrow> user_id \<times> nat \<times> tipo" where
  "triple c = (usuario c, epi c, tipo c)"

text \<open>
  What the database guarantees of the cart table by itself: primary keys are unique and
  below the counter that issues the next one.
\<close>

definition pk_ok :: "db \<Rightarrow> bool" where
  "pk_ok s = (distinct (map pk (carrinhos s)) \<and> list_all (\<lambda>c. pk c < next_pk s) (carrinhos s))"

text \<open>The stored line with a given primary key.\<close>

definition line_at :: "db \<Rightarrow> nat \<Rightarrow> Carrinhos option" where
  "line_at s item_id = find (\<lambda>c. pk c = item_id) (carrinhos s)"

text \<open>
  The invariant of the cart service: the guarantees of the database, and at most one line
  for each user, item and kind.
\<close>

definition cart_inv :: "db \<Rightarrow> bool" where
  "cart_inv s = (pk_ok s \<and> distinct (map triple (carrinhos s)))"


section \<open>Example data\<close>

definition helmet :: Epis where
  "helmet = \<lparr>epi_pk = 1, nome = ''Helmet'', descricao = ''Hard hat, yellow'', valor = 25\<rparr>"

definition post :: "user_id \<Rightarrow> int \<Rightarrow> request" where
  "post u q = \<lparr>http_method = ''POST'', user = Some u, GET_search = None, GET_page = None,
               POST_quantidade = Some q\<rparr>"

definition get_rq :: "user_id \<Rightarrow> string option \<Rightarrow> page_arg option \<Rightarrow> request" where
  "get_rq u search p = \<lparr>http_method = ''GET'', user = Some u, GET_search = search, GET_page = p,
               POST_quantidade = None\<rparr>"

definition cart_of_user_2 :: db where
  "cart_of_user_2 = \<lparr>epis = [helmet],
     carrinhos = [\<lparr>pk = 1, usuario = 2, epi = 1, quantidade = 3, tipo = COMPRA\<rparr>], next_pk = 2\<rparr>"

definition leaflet :: Epis where
  "leaflet = \<lparr>epi_pk = 2, nome = ''Leaflet'', descricao = ''Safety leaflet'', valor = 0\<rparr>"


definition mixed_cart :: db where
  "mixed_cart = \<lparr>epis = [helmet, leaflet],
     carrinhos = [\<lparr>pk = 1, usuario = 1, epi = 1, quantidade = 2, tipo = COMPRA\<rparr>,
                  \<lparr>pk = 2, usuario = 1, epi = 1, quantidade = 1, tipo = OUTRO 0\<rparr>],
     next_pk = 3\<rparr>"





definition catalog12 :: "Epis list" where
  "catalog12 = map (\<lambda>n. \<lparr>epi_pk = n, nome = ''Glove'', descricao = ''Leather glove'', valor = 4\<rparr>)
     [1, 2, 3, 4, 5, 6, 7, 8, 9, 10, 11, 12]"

definition shop12 :: db where
  "shop12 = \<lparr>epis = catalog12, carrinhos = [], next_pk = 1\<rparr>"

section \<open>Auxiliary lemmas\<close>

subsection \<open>Lookups\<close>

lemma objects_get_Inr: "objects_get P rows = Inr r \<Longrightarrow> r \<in> set rows \<and> P r \<and> filter P rows = [r]"
proof -
  assume a: "objects_get P rows = Inr r"
  then have f: "filter P rows = [r]"
    by (auto simp: objects_get_def split: list.splits)
  have "r \<in> set (filter P rows)" unfolding f by simp
  then have "r \<in> set rows \<and> P r" by simp
  with f show ?thesis by blast
qed

lemma objects_get_single: "filter P rows = [r] \<Longrightarrow> objects_get P rows = Inr r"
  by (simp add: objects_get_def)

lemma objects_get_none: "filter P rows = [] \<Longrightarrow> objects_get P rows = Inl DoesNotExist"
  by (simp add: objects_get_def)

lemma objects_get_DoesNotExist: "objects_get P rows = Inl DoesNotExist \<Longrightarrow> filter P rows = []"
  by (auto simp: objects_get_def split: list.splits)

lemma get_object_or_404_Inr:
  "get_object_or_404 P rows = Inr r \<Longrightarrow> r \<in> set rows \<and> P r \<and> filter P rows = [r]"
  using objects_get_Inr [of P rows r]
  by (auto simp: get_object_or_404_def split: sum.splits error.splits)

lemma get_object_or_404_single: "filter P rows = [r] \<Longrightarrow> get_object_or_404 P rows = Inr r"
  by (simp add: get_object_or_404_def objects_get_def)

lemma get_object_or_404_none: "filter P rows = [] \<Longrightarrow> get_object_or_404 P rows = Inl Http404"
  by (simp add: get_object_or_404_def objects_get_def)

lemma filter_key_unique:
  "distinct (map f rows) \<Longrightarrow> x \<in> set rows \<Longrightarrow> filter (\<lambda>c. f c = f x) rows = [x]"
proof (induction rows)
  case Nil
  then show ?case by simp
next
  case (Cons a rows)
  show ?case
  proof (cases "a = x")
    case True
    have "f x \<notin> f ` set rows" using Cons.prems(1) True by simp
    then have "filter (\<lambda>c. f c = f x) rows = []"
      unfolding filter_empty_conv by (metis imageI)
    with True show ?thesis by simp
  next
    case False
    then have in_rows: "x \<in> set rows" using Cons.prems(2) by simp
    have "f a \<noteq> f x" using Cons.prems(1) in_rows by force
    moreover have "filter (\<lambda>c. f c = f x) rows = [x]"
      using Cons.IH Cons.prems(1) in_rows by simp
    ultimately show ?thesis by simp
  qed
qed

lemma filter_pk_owner:
  assumes "distinct (map pk rows)" and "item \<in> set rows"
  shows "filter (\<lambda>c. pk c = pk item \<and> usuario c = usuario item) rows = [item]"
proof -
  have "filter (\<lambda>c. pk c = pk item \<and> usuario c = usuario item) rows
        = filter (\<lambda>c. usuario c = usuario item) (filter (\<lambda>c. pk c = pk item) rows)"
    by (simp add: conj_commute)
  also have "\<dots> = [item]"
    using filter_key_unique [OF assms] by simp
  finally show ?thesis .
qed

lemma filter_triple:
  assumes "distinct (map triple rows)" and "item \<in> set rows"
  shows "filter (\<lambda>c. usuario c = usuario item \<and> epi c = epi item \<and> tipo c = tipo item) rows = [item]"
proof -
  have "(\<lambda>c. usuario c = usuario item \<and> epi c = epi item \<and> tipo c = tipo item)
        = (\<lambda>c. triple c = triple item)"
    by (simp add: triple_def)
  then show ?thesis using filter_key_unique [OF assms] by simp
qed

text \<open>Overwriting a stored line's quantity.\<close>

lemma save_quantidade:
  assumes "distinct (map pk (carrinhos s))" and "item \<in> set (carrinhos s)"
  shows "carrinhos (save (item\<lparr>quantidade := q\<rparr>) s)
         = map (\<lambda>x. if x = item then item\<lparr>quantidade := q\<rparr> else x) (carrinhos s)"
proof -
  have eq: "\<And>x. x \<in> set (carrinhos s) \<Longrightarrow> (pk x = pk item) = (x = item)"
    using assms by (meson distinct_map inj_onD)
  have "pk item \<in> set (map pk (carrinhos s))" using assms(2) by simp
  then have "carrinhos (save (item\<lparr>quantidade := q\<rparr>) s)
      = map (\<lambda>x. if pk x = pk item then item\<lparr>quantidade := q\<rparr> else x) (carrinhos s)"
    by (simp add: save_def)
  also have "\<dots> = map (\<lambda>x. if x = item then item\<lparr>quantidade := q\<rparr> else x) (carrinhos s)"
    using eq by (intro map_cong) auto
  finally show ?thesis .
qed

lemma save_other_fields:
  "epis (save c s) = epis s" "next_pk (save c s) = next_pk s"
  by (simp_all add: save_def)

lemma map_key_update:
  "(\<And>x. g (h x) = g x) \<Longrightarrow> map g (map (\<lambda>x. if x = item then h item else x) rows) = map g rows"
  by (induction rows) auto

lemma save_quantidade_pks:
  assumes "distinct (map pk (carrinhos s))" and "item \<in> set (carrinhos s)"
  shows "map pk (carrinhos (save (item\<lparr>quantidade := q\<rparr>) s)) = map pk (carrinhos s)"
    and "map triple (carrinhos (save (item\<lparr>quantidade := q\<rparr>) s)) = map triple (carrinhos s)"
proof -
  have m: "carrinhos (save (item\<lparr>quantidade := q\<rparr>) s)
         = map (\<lambda>x. if x = item then (\<lambda>y. y\<lparr>quantidade := q\<rparr>) item else x) (carrinhos s)"
    using save_quantidade [OF assms] by simp
  show "map pk (carrinhos (save (item\<lparr>quantidade := q\<rparr>) s)) = map pk (carrinhos s)"
    unfolding m by (rule map_key_update) simp
  show "map triple (carrinhos (save (item\<lparr>quantidade := q\<rparr>) s)) = map triple (carrinhos s)"
    unfolding m by (rule map_key_update) (simp add: triple_def)
qed

lemma save_quantidade_inv:
  assumes "cart_inv s" and "item \<in> set (carrinhos s)"
  shows "cart_inv (save (item\<lparr>quantidade := q\<rparr>) s)"
proof -
  have d: "distinct (map pk (carrinhos s))" using assms(1) by (simp add: cart_inv_def pk_ok_def)
  note k = save_quantidade_pks [OF d assms(2), of q]
  have "list_all (\<lambda>c. pk c < next_pk s) (carrinhos (save (item\<lparr>quantidade := q\<rparr>) s))
        = list_all (\<lambda>n. n < next_pk s) (map pk (carrinhos (save (item\<lparr>quantidade := q\<rparr>) s)))"
    by (simp add: list_all_iff)
  also have "\<dots> = list_all (\<lambda>c. pk c < next_pk s) (carrinhos s)"
    unfolding k(1) by (simp add: list_all_iff)
  finally show ?thesis
    using assms(1) k by (simp add: cart_inv_def pk_ok_def save_other_fields)
qed

lemma delete_inv: "cart_inv s \<Longrightarrow> cart_inv (delete c s)"
  by (auto simp: cart_inv_def pk_ok_def delete_def distinct_map_filter list_all_iff)

subsection \<open>The views keep the invariant\<close>

lemma update_cart_db:
  "snd (update_cart rq item_id s) = s \<or>
   (\<exists>item q. item \<in> set (carrinhos s) \<and> snd (update_cart rq item_id s) = save (item\<lparr>quantidade := q\<rparr>) s)"
proof (cases "user rq")
  case None
  then show ?thesis by (simp add: update_cart_def login_required_def)
next
  case (Some u)
  show ?thesis
  proof (cases "get_object_or_404 (\<lambda>c. pk c = item_id \<and> usuario c = u) (carrinhos s)")
    case (Inl err)
    with Some show ?thesis by (simp add: update_cart_def login_required_def)
  next
    case (Inr item)
    then have "item \<in> set (carrinhos s)" using get_object_or_404_Inr by fastforce
    with Some Inr show ?thesis
      by (auto simp: update_cart_def login_required_def Let_def split: option.splits sum.splits)
  qed
qed

lemma remove_from_cart_db:
  "snd (remove_from_cart rq item_id s) = s \<or> (\<exists>item. snd (remove_from_cart rq item_id s) = delete item s)"
  by (auto simp: remove_from_cart_def login_required_def Let_def split: option.splits sum.splits)

lemma get_or_create_cases:
  "get_or_create u e t q s = Inr ((c, created), s1) \<Longrightarrow>
     (\<not> created \<and> s1 = s \<and> c \<in> set (carrinhos s) \<and> triple c = (u, e, t)) \<or>
     (created \<and> c = \<lparr>pk = next_pk s, usuario = u, epi = e, quantidade = q, tipo = t\<rparr> \<and>
      s1 = s\<lparr>carrinhos := carrinhos s @ [c], next_pk := Suc (next_pk s)\<rparr> \<and>
      filter (\<lambda>c. usuario c = u \<and> epi c = e \<and> tipo c = t) (carrinhos s) = [])"
proof -
  assume a: "get_or_create u e t q s = Inr ((c, created), s1)"
  let ?P = "\<lambda>c. usuario c = u \<and> epi c = e \<and> tipo c = t"
  show ?thesis
  proof (cases "objects_get ?P (carrinhos s)")
    case (Inr r)
    with a have "c = r" "\<not> created" "s1 = s" by (auto simp: get_or_create_def)
    moreover have "r \<in> set (carrinhos s) \<and> ?P r" using objects_get_Inr [OF Inr] by simp
    ultimately show ?thesis by (simp add: triple_def)
  next
    case (Inl err)
    with a have err: "err = DoesNotExist"
      by (cases err) (auto simp: get_or_create_def)
    with Inl have "filter ?P (carrinhos s) = []" using objects_get_DoesNotExist by blast
    with a Inl err show ?thesis by (auto simp: get_or_create_def Let_def)
  qed
qed

lemma create_inv:
  assumes "cart_inv s"
    and "filter (\<lambda>c. usuario c = u \<and> epi c = e \<and> tipo c = t) (carrinhos s) = []"
  shows "cart_inv (s\<lparr>carrinhos := carrinhos s @ [\<lparr>pk = next_pk s, usuario = u, epi = e, quantidade = q, tipo = t\<rparr>],
                    next_pk := Suc (next_pk s)\<rparr>)"
proof -
  have fresh: "next_pk s \<notin> pk ` set (carrinhos s)"
    using assms(1) by (auto simp: cart_inv_def pk_ok_def list_all_iff)
  have "\<And>c. c \<in> set (carrinhos s) \<Longrightarrow> triple c \<noteq> (u, e, t)"
    using assms(2) unfolding filter_empty_conv triple_def by auto
  then have new: "(u, e, t) \<notin> triple ` set (carrinhos s)" by (metis imageE)
  have lt: "list_all (\<lambda>c. pk c < Suc (next_pk s)) (carrinhos s)"
    using assms(1) by (auto simp: cart_inv_def pk_ok_def list_all_iff)
  show ?thesis
    using assms(1) fresh new lt by (simp add: cart_inv_def pk_ok_def triple_def)
qed

lemma add_to_cart_inv: "cart_inv s \<Longrightarrow> cart_inv (snd (add_to_cart rq epi_id s))"
proof -
  assume inv: "cart_inv s"
  show ?thesis
  proof (cases "user rq")
    case None
    with inv show ?thesis by (simp add: add_to_cart_def login_required_def)
  next
    case (Some u)
    show ?thesis
    proof (cases "get_object_or_404 (\<lambda>e. epi_pk e = epi_id) (epis s)")
      case (Inl err)
      with Some inv show ?thesis by (simp add: add_to_cart_def login_required_def)
    next
      case (Inr e)
      show ?thesis
      proof (cases "http_method rq = ''POST''")
        case False
        with Some Inr inv show ?thesis by (simp add: add_to_cart_def login_required_def)
      next
        case True
        show ?thesis
        proof (cases "AddToCartForm_cleaned_data (POST_quantidade rq)")
          case None
          with Some Inr True inv show ?thesis by (simp add: add_to_cart_def login_required_def)
        next
          case q: (Some q)
          show ?thesis
          proof (cases "get_or_create u (epi_pk e) COMPRA q s")
            case (Inl err)
            with Some Inr True q inv show ?thesis by (simp add: add_to_cart_def login_required_def)
          next
            case goc: (Inr r)
            obtain c created s1 where r: "r = ((c, created), s1)" by (metis prod.collapse)
            have res: "snd (add_to_cart rq epi_id s) =
                (if \<not> created then save (c\<lparr>quantidade := quantidade c + q\<rparr>) s1 else s1)"
              using Some Inr True q goc r by (simp add: add_to_cart_def login_required_def)
            from get_or_create_cases [OF goc [unfolded r]]
            show ?thesis
            proof
              assume "\<not> created \<and> s1 = s \<and> c \<in> set (carrinhos s) \<and> triple c = (u, epi_pk e, COMPRA)"
              then show ?thesis using res inv save_quantidade_inv by simp
            next
              assume "created \<and> c = \<lparr>pk = next_pk s, usuario = u, epi = epi_pk e, quantidade = q, tipo = COMPRA\<rparr> \<and>
                s1 = s\<lparr>carrinhos := carrinhos s @ [c], next_pk := Suc (next_pk s)\<rparr> \<and>
                filter (\<lambda>c. usuario c = u \<and> epi c = epi_pk e \<and> tipo c = COMPRA) (carrinhos s) = []"
              then show ?thesis using res create_inv [OF inv, of u "epi_pk e" COMPRA q] by simp
            qed
          qed
        qed
      qed
    qed
  qed
qed

lemma update_cart_inv: "cart_inv s \<Longrightarrow> cart_inv (snd (update_cart rq item_id s))"
  using update_cart_db [of rq item_id s] save_quantidade_inv by auto

lemma remove_from_cart_inv: "cart_inv s \<Longrightarrow> cart_inv (snd (remove_from_cart rq item_id s))"
  using remove_from_cart_db [of rq item_id s] delete_inv by auto

lemma apply_op_inv: "cart_inv s \<Longrightarrow> cart_inv (apply_op s op)"
  by (cases op) (simp_all add: add_to_cart_inv update_cart_inv remove_from_cart_inv)

lemma run_inv: "cart_inv s \<Longrightarrow> cart_inv (run ops s)"
  unfolding run_def by (induction ops arbitrary: s) (simp_all add: apply_op_inv)

lemma empty_store_inv: "cart_inv (empty_store catalog n)"
  by (simp add: cart_inv_def pk_ok_def empty_store_def)

subsection \<open>Adding and updating a line\<close>

lemma add_to_cart_create:
  assumes "user rq = Some u" and "http_method rq = ''POST''" and "POST_quantidade rq = Some q" and "1 \<le> q"
    and "distinct (map epi_pk (epis s))" and "e \<in> set (epis s)"
    and "filter (\<lambda>c. usuario c = u \<and> epi c = epi_pk e \<and> tipo c = COMPRA) (carrinhos s) = []"
  shows "add_to_cart rq (epi_pk e) s =
           (Inr (Redirect ''epi_detail'' [AddedToCart q (nome e)]),
            s\<lparr>carrinhos := carrinhos s @
                 [\<lparr>pk = next_pk s, usuario = u, epi = epi_pk e, quantidade = q, tipo = COMPRA\<rparr>],
               next_pk := Suc (next_pk s)\<rparr>)"
proof -
  have g: "get_object_or_404 (\<lambda>x. epi_pk x = epi_pk e) (epis s) = Inr e"
    using filter_key_unique [OF assms(5,6)] by (rule get_object_or_404_single)
  have c: "get_or_create u (epi_pk e) COMPRA q s =
      Inr ((\<lparr>pk = next_pk s, usuario = u, epi = epi_pk e, quantidade = q, tipo = COMPRA\<rparr>, True),
           s\<lparr>carrinhos := carrinhos s @
                 [\<lparr>pk = next_pk s, usuario = u, epi = epi_pk e, quantidade = q, tipo = COMPRA\<rparr>],
               next_pk := Suc (next_pk s)\<rparr>)"
    using objects_get_none [OF assms(7)] by (simp add: get_or_create_def Let_def)
  show ?thesis
    using assms(1-4) g c
    by (simp add: add_to_cart_def login_required_def AddToCartForm_cleaned_data_def)
qed

lemma add_to_cart_increment:
  assumes "user rq = Some u" and "http_method rq = ''POST''" and "POST_quantidade rq = Some q" and "1 \<le> q"
    and "distinct (map epi_pk (epis s))" and "e \<in> set (epis s)"
    and "filter (\<lambda>c. usuario c = u \<and> epi c = epi_pk e \<and> tipo c = COMPRA) (carrinhos s) = [item]"
  shows "add_to_cart rq (epi_pk e) s =
           (Inr (Redirect ''epi_detail'' [AddedToCart q (nome e)]),
            save (item\<lparr>quantidade := quantidade item + q\<rparr>) s)"
proof -
  have g: "get_object_or_404 (\<lambda>x. epi_pk x = epi_pk e) (epis s) = Inr e"
    using filter_key_unique [OF assms(5,6)] by (rule get_object_or_404_single)
  have c: "get_or_create u (epi_pk e) COMPRA q s = Inr ((item, False), s)"
    using objects_get_single [OF assms(7)] by (simp add: get_or_create_def)
  show ?thesis
    using assms(1-4) g c
    by (simp add: add_to_cart_def login_required_def AddToCartForm_cleaned_data_def)
qed

lemma save_last:
  assumes "list_all (\<lambda>c. pk c < pk item) rows" and "carrinhos s = rows @ [item]" and "pk item' = pk item"
  shows "carrinhos (save item' s) = rows @ [item']"
proof -
  have "\<And>x. x \<in> set rows \<Longrightarrow> pk x \<noteq> pk item"
    using assms(1) by (auto simp: list_all_iff)
  then have "map (\<lambda>x. if pk x = pk item then item' else x) rows = rows"
    by (induction rows) auto
  then show ?thesis using assms(2,3) by (simp add: save_def)
qed

lemma find_replaced:
  assumes "distinct (map pk rows)" and "item \<in> set rows" and "pk item' = pk item"
  shows "find (\<lambda>c. pk c = pk item) (map (\<lambda>x. if x = item then item' else x) rows) = Some item'"
  using assms
proof (induction rows)
  case Nil
  then show ?case by simp
next
  case (Cons a rows)
  show ?case
  proof (cases "a = item")
    case True
    with Cons.prems(3) show ?thesis by simp
  next
    case False
    then have "item \<in> set rows" using Cons.prems(2) by simp
    moreover from this have "pk a \<noteq> pk item" using Cons.prems(1) by force
    ultimately show ?thesis using Cons False by simp
  qed
qed

lemma update_cart_valid_db:
  assumes "user rq = Some u" and "http_method rq = ''POST''" and "POST_quantidade rq = Some q" and "1 \<le> q"
    and "distinct (map pk (carrinhos s))" and "item \<in> set (carrinhos s)" and "usuario item = u"
  shows "snd (update_cart rq (pk item) s) = save (item\<lparr>quantidade := q\<rparr>) s"
proof -
  have "filter (\<lambda>c. pk c = pk item \<and> usuario c = u) (carrinhos s) = [item]"
    using filter_pk_owner [OF assms(5,6)] assms(7) by simp
  then have "get_object_or_404 (\<lambda>c. pk c = pk item \<and> usuario c = u) (carrinhos s) = Inr item"
    by (rule get_object_or_404_single)
  then show ?thesis
    using assms(1-4)
    by (simp add: update_cart_def login_required_def AddToCartForm_cleaned_data_def Let_def
        split: sum.splits)
qed

subsection \<open>Totals\<close>



subsection \<open>The views write lines of kind \<^verbatim>\<open>COMPRA\<close> only\<close>












subsection \<open>Searching and paginating\<close>















lemma paginator_page_slice:
  assumes "paginator_page queryset per_page n = Inr p"
  shows "object_list p = take per_page (drop ((number p - 1) * per_page) queryset)
       \<and> 1 \<le> number p \<and> int (number p) = n \<and> number p \<le> paginator_num_pages queryset per_page"
proof -
  have n: "1 \<le> n" "n \<le> int (paginator_num_pages queryset per_page)"
    using assms by (auto simp: paginator_page_def split: if_splits)
  define bottom where "bottom = (nat n - 1) * per_page"
  define top where "top = (if bottom + per_page \<ge> length queryset then length queryset
                    else bottom + per_page)"
  have "Inr p = (Inr \<lparr>object_list = take (top - bottom) (drop bottom queryset), number = nat n,
                 num_pages = paginator_num_pages queryset per_page\<rparr> :: invalid_page + page)"
    using assms n unfolding paginator_page_def Let_def top_def bottom_def by simp
  then have p: "p = \<lparr>object_list = take (top - bottom) (drop bottom queryset), number = nat n,
                 num_pages = paginator_num_pages queryset per_page\<rparr>"
    by simp
  have "take (top - bottom) (drop bottom queryset) = take per_page (drop bottom queryset)"
    unfolding top_def by simp
  with p have "object_list p = take per_page (drop bottom queryset)" and "number p = nat n"
    by simp_all
  moreover have "1 \<le> nat n" and "int (nat n) = n" and "nat n \<le> paginator_num_pages queryset per_page"
    using n by linarith+
  ultimately show ?thesis unfolding bottom_def by simp
qed

lemma paginate_queryset_slice:
  assumes "paginate_queryset queryset per_page arg = Inr p"
  shows "object_list p = take per_page (drop ((number p - 1) * per_page) queryset) \<and> 1 \<le> number p"
proof -
  from assms obtain n where "paginator_page queryset per_page n = Inr p"
    by (auto simp: paginate_queryset_def split: option.splits sum.splits)
  then show ?thesis using paginator_page_slice by blast
qed

lemma EpiList_shop12_page1:
  "EpiList (get_rq 1 None None) shop12 =
     (Inr (Render ''epi_shops/epi_list.html''
        (EpiListContext \<lparr>object_list = take 10 catalog12, number = 1, num_pages = 2\<rparr>)), shop12)"
  by (simp add: EpiList_def login_required_def get_rq_def get_queryset_def shop12_def
      paginate_queryset_def paginator_page_def paginator_num_pages_def paginate_by_def catalog12_def)

lemma EpiList_shop12_page2:
  "EpiList (get_rq 1 None (Some (PageInt 2))) shop12 =
     (Inr (Render ''epi_shops/epi_list.html''
        (EpiListContext \<lparr>object_list = drop 10 catalog12, number = 2, num_pages = 2\<rparr>)), shop12)"
  by (simp add: EpiList_def login_required_def get_rq_def get_queryset_def shop12_def
      paginate_queryset_def paginator_page_def paginator_num_pages_def paginate_by_def catalog12_def)

lemma EpiList_shop12_page3:
  "EpiList (get_rq 1 None (Some (PageInt 3))) shop12 = (Inl Http404, shop12)"
  by (simp add: EpiList_def login_required_def get_rq_def get_queryset_def shop12_def
      paginate_queryset_def paginator_page_def paginator_num_pages_def paginate_by_def catalog12_def)

section \<open>Claims about the cart\<close>

text \<open>
  Claim C1. A user posts a valid quantity \<open>q1\<close> and then a valid quantity \<open>q2\<close> for the
  same catalog item, with no cart line for that user, item and kind \<^verbatim>\<open>COMPRA\<close> before the
  first request. The first request creates the line with quantity \<open>q1\<close>; after the second
  the store holds the lines it held before and that one line, whose quantity is
  \<open>q1 + q2\<close>: the second request increments the line and does not replace it.
\<close>

theorem add_twice_one_line:
  assumes "user rq1 = Some u" and "http_method rq1 = ''POST''" and "POST_quantidade rq1 = Some q1" and "0 < q1"
    and "user rq2 = Some u" and "http_method rq2 = ''POST''" and "POST_quantidade rq2 = Some q2" and "0 < q2"
    and "distinct (map epi_pk (epis s))" and "e \<in> set (epis s)"
    and "pk_ok s"
    and "list_all (\<lambda>c. triple c \<noteq> (u, epi_pk e, COMPRA)) (carrinhos s)"
  shows "carrinhos (snd (add_to_cart rq1 (epi_pk e) s)) = carrinhos s @
           [\<lparr>pk = next_pk s, usuario = u, epi = epi_pk e, quantidade = q1, tipo = COMPRA\<rparr>]
       \<and> carrinhos (snd (add_to_cart rq2 (epi_pk e) (snd (add_to_cart rq1 (epi_pk e) s)))) = carrinhos s @
           [\<lparr>pk = next_pk s, usuario = u, epi = epi_pk e, quantidade = q1 + q2, tipo = COMPRA\<rparr>]
       \<and> filter (\<lambda>c. triple c = (u, epi_pk e, COMPRA))
           (carrinhos (snd (add_to_cart rq2 (epi_pk e) (snd (add_to_cart rq1 (epi_pk e) s))))) =
           [\<lparr>pk = next_pk s, usuario = u, epi = epi_pk e, quantidade = q1 + q2, tipo = COMPRA\<rparr>]"
proof -
  let ?P = "\<lambda>c. usuario c = u \<and> epi c = epi_pk e \<and> tipo c = COMPRA"
  let ?c1 = "\<lparr>pk = next_pk s, usuario = u, epi = epi_pk e, quantidade = q1, tipo = COMPRA\<rparr>"
  let ?c2 = "\<lparr>pk = next_pk s, usuario = u, epi = epi_pk e, quantidade = q1 + q2, tipo = COMPRA\<rparr>"
  let ?s1 = "s\<lparr>carrinhos := carrinhos s @ [?c1], next_pk := Suc (next_pk s)\<rparr>"
  have P: "?P = (\<lambda>c. triple c = (u, epi_pk e, COMPRA))"
    by (simp add: triple_def)
  have none: "filter ?P (carrinhos s) = []"
    unfolding P filter_empty_conv using assms(12) by (simp add: list_all_iff)
  have first: "add_to_cart rq1 (epi_pk e) s = (Inr (Redirect ''epi_detail'' [AddedToCart q1 (nome e)]), ?s1)"
    using add_to_cart_create [OF assms(1-3) _ assms(9,10) none] assms(4) by simp
  have one: "carrinhos (snd (add_to_cart rq1 (epi_pk e) s)) = carrinhos s @ [?c1]"
    by (simp add: first)
  have single: "filter ?P (carrinhos ?s1) = [?c1]"
    using none by simp
  have second: "add_to_cart rq2 (epi_pk e) ?s1 =
      (Inr (Redirect ''epi_detail'' [AddedToCart q2 (nome e)]), save (?c1\<lparr>quantidade := quantidade ?c1 + q2\<rparr>) ?s1)"
    using add_to_cart_increment [OF assms(5-7) _ _ _ single] assms(8,9,10) by simp
  have below: "list_all (\<lambda>c. pk c < pk ?c1) (carrinhos s)"
    using assms(11) by (simp add: pk_ok_def)
  have "carrinhos (save (?c1\<lparr>quantidade := quantidade ?c1 + q2\<rparr>) ?s1) = carrinhos s @ [?c2]"
    using save_last [OF below, of ?s1 "?c1\<lparr>quantidade := quantidade ?c1 + q2\<rparr>"] by simp
  then have two: "carrinhos (snd (add_to_cart rq2 (epi_pk e) (snd (add_to_cart rq1 (epi_pk e) s)))) = carrinhos s @ [?c2]"
    by (simp add: first second)
  have three: "filter (\<lambda>c. triple c = (u, epi_pk e, COMPRA))
           (carrinhos (snd (add_to_cart rq2 (epi_pk e) (snd (add_to_cart rq1 (epi_pk e) s))))) = [?c2]"
    unfolding two using none unfolding P by (simp add: triple_def)
  from one two three show ?thesis by blast
qed

theorem add_twice_one_line_witness:
  "carrinhos (snd (add_to_cart (post 1 2) 1 (empty_store [helmet] 1))) =
     [\<lparr>pk = 1, usuario = 1, epi = 1, quantidade = 2, tipo = COMPRA\<rparr>]
   \<and> carrinhos (snd (add_to_cart (post 1 3) 1 (snd (add_to_cart (post 1 2) 1 (empty_store [helmet] 1))))) =
     [\<lparr>pk = 1, usuario = 1, epi = 1, quantidade = 5, tipo = COMPRA\<rparr>]"
  using add_twice_one_line [of "post 1 2" 1 2 "post 1 3" 3 "empty_store [helmet] 1" helmet]
  by (simp add: post_def helmet_def empty_store_def pk_ok_def triple_def)

text \<open>
  Claim C3. Every store reached from the empty store by any sequence of add, update and
  remove requests, of any users and with any arguments, holds at most one line for each
  user, item and kind.
\<close>

theorem one_line_per_triple:
  "distinct (map triple (carrinhos (run ops (empty_store catalog n))))"
  using run_inv [OF empty_store_inv, of ops catalog n] by (simp add: cart_inv_def)

text \<open>
  Claim C5. For a line of the caller with quantity \<open>q0\<close> and a valid quantity \<open>q\<close>, the
  update request stores exactly \<open>q\<close> in the line and changes no other line, whereas the
  add request for the line's item stores \<open>q0 + q\<close>.
\<close>

theorem update_replaces_add_increments:
  assumes "user rq = Some u" and "http_method rq = ''POST''" and "POST_quantidade rq = Some q" and "1 \<le> q"
    and "cart_inv s" and "item \<in> set (carrinhos s)" and "usuario item = u"
    and "tipo item = COMPRA"
    and "distinct (map epi_pk (epis s))" and "e \<in> set (epis s)" and "epi_pk e = epi item"
  shows "carrinhos (snd (update_cart rq (pk item) s)) =
           map (\<lambda>x. if x = item then item\<lparr>quantidade := q\<rparr> else x) (carrinhos s)
       \<and> line_at (snd (update_cart rq (pk item) s)) (pk item) = Some (item\<lparr>quantidade := q\<rparr>)
       \<and> carrinhos (snd (add_to_cart rq (epi item) s)) =
           map (\<lambda>x. if x = item then item\<lparr>quantidade := quantidade item + q\<rparr> else x) (carrinhos s)
       \<and> line_at (snd (add_to_cart rq (epi item) s)) (pk item) =
           Some (item\<lparr>quantidade := quantidade item + q\<rparr>)"
proof -
  have d: "distinct (map pk (carrinhos s))" and t: "distinct (map triple (carrinhos s))"
    using assms(5) by (simp_all add: cart_inv_def pk_ok_def)
  have upd: "carrinhos (snd (update_cart rq (pk item) s)) =
           map (\<lambda>x. if x = item then item\<lparr>quantidade := q\<rparr> else x) (carrinhos s)"
    using update_cart_valid_db [OF assms(1-4) d assms(6,7)] save_quantidade [OF d assms(6)] by simp
  have "filter (\<lambda>c. usuario c = u \<and> epi c = epi_pk e \<and> tipo c = COMPRA) (carrinhos s) = [item]"
    using filter_triple [OF t assms(6)] assms(7,8,11) by simp
  from add_to_cart_increment [OF assms(1-4) assms(9,10) this]
  have "snd (add_to_cart rq (epi item) s) = save (item\<lparr>quantidade := quantidade item + q\<rparr>) s"
    using assms(11) by simp
  then have add: "carrinhos (snd (add_to_cart rq (epi item) s)) =
           map (\<lambda>x. if x = item then item\<lparr>quantidade := quantidade item + q\<rparr> else x) (carrinhos s)"
    using save_quantidade [OF d assms(6)] by simp
  show ?thesis
    unfolding line_at_def upd add
    using find_replaced [OF d assms(6)] by simp
qed

theorem update_replaces_add_increments_witness:
  "line_at (snd (update_cart (post 2 7) 1 cart_of_user_2)) 1 =
     Some \<lparr>pk = 1, usuario = 2, epi = 1, quantidade = 7, tipo = COMPRA\<rparr>
   \<and> line_at (snd (add_to_cart (post 2 7) 1 cart_of_user_2)) 1 =
     Some \<lparr>pk = 1, usuario = 2, epi = 1, quantidade = 10, tipo = COMPRA\<rparr>"
  using update_replaces_add_increments [of "post 2 7" 2 7 cart_of_user_2
      "\<lparr>pk = 1, usuario = 2, epi = 1, quantidade = 3, tipo = COMPRA\<rparr>" helmet]
  by (simp add: post_def cart_of_user_2_def helmet_def cart_inv_def pk_ok_def triple_def)

text \<open>
  Claim C6. For a line of the caller and a posted quantity \<open>q \<le> 0\<close>, the update request
  is refused: the form is not valid, the view renders the bound form again, and the store
  after the request is the store before it.
\<close>

theorem update_cart_rejects_nonpositive:
  assumes "user rq = Some u" and "http_method rq = ''POST''" and "POST_quantidade rq = Some q" and "q \<le> 0"
    and "distinct (map pk (carrinhos s))" and "item \<in> set (carrinhos s)" and "usuario item = u"
  shows "update_cart rq (pk item) s =
           (Inr (Render ''epi_shops/update_cart.html'' (UpdateCartContext (Bound (Some q)) item)), s)
       \<and> AddToCartForm_cleaned_data (Some q) = None"
proof -
  have "filter (\<lambda>c. pk c = pk item \<and> usuario c = u) (carrinhos s) = [item]"
    using filter_pk_owner [OF assms(5,6)] assms(7) by simp
  then have "get_object_or_404 (\<lambda>c. pk c = pk item \<and> usuario c = u) (carrinhos s) = Inr item"
    by (rule get_object_or_404_single)
  then show ?thesis
    using assms(1-4) by (simp add: update_cart_def login_required_def AddToCartForm_cleaned_data_def)
qed

theorem update_cart_rejects_nonpositive_witness:
  "update_cart (post 2 0) 1 cart_of_user_2 =
     (Inr (Render ''epi_shops/update_cart.html''
        (UpdateCartContext (Bound (Some 0)) \<lparr>pk = 1, usuario = 2, epi = 1, quantidade = 3, tipo = COMPRA\<rparr>)),
      cart_of_user_2)
   \<and> line_at cart_of_user_2 1 = Some \<lparr>pk = 1, usuario = 2, epi = 1, quantidade = 3, tipo = COMPRA\<rparr>"
  using update_cart_rejects_nonpositive [of "post 2 0" 2 0 cart_of_user_2
      "\<lparr>pk = 1, usuario = 2, epi = 1, quantidade = 3, tipo = COMPRA\<rparr>"]
  by (simp add: post_def cart_of_user_2_def line_at_def)

text \<open>
  Claim C7. When no line with the given identifier belongs to the caller (it belongs to
  another user, or there is no such line), the remove request ends in \<^verbatim>\<open>Http404\<close> and the
  store is unchanged, so that the other user's line is still there with its quantity.
\<close>

theorem remove_from_cart_not_owned:
  assumes "user rq = Some u"
    and "list_all (\<lambda>c. pk c = item_id \<longrightarrow> usuario c \<noteq> u) (carrinhos s)"
  shows "remove_from_cart rq item_id s = (Inl Http404, s)"
proof -
  have "filter (\<lambda>c. pk c = item_id \<and> usuario c = u) (carrinhos s) = []"
    using assms(2) by (auto simp: filter_empty_conv list_all_iff)
  then show ?thesis
    using assms(1) by (simp add: remove_from_cart_def login_required_def get_object_or_404_none)
qed

theorem remove_from_cart_not_owned_witness:
  "remove_from_cart (get_rq 1 None None) 1 cart_of_user_2 = (Inl Http404, cart_of_user_2)
   \<and> remove_from_cart (get_rq 1 None None) 5 cart_of_user_2 = (Inl Http404, cart_of_user_2)
   \<and> line_at cart_of_user_2 1 = Some \<lparr>pk = 1, usuario = 2, epi = 1, quantidade = 3, tipo = COMPRA\<rparr>"
  using remove_from_cart_not_owned [of "get_rq 1 None None" 1 1 cart_of_user_2]
    remove_from_cart_not_owned [of "get_rq 1 None None" 1 5 cart_of_user_2]
  by (simp add: get_rq_def cart_of_user_2_def line_at_def)




section \<open>Claims about the catalog\<close>




text \<open>
  Claim C8. Every page the list view returns is the slice of ten items of the query set
  that starts after the earlier pages: it has at most 10 items, and exactly 10 when at
  least 10 items remain from its start.
\<close>

theorem EpiList_page_size:
  assumes "EpiList rq s = (Inr (Render template (EpiListContext p)), s')"
  shows "object_list p = take 10 (drop ((number p - 1) * 10) (get_queryset rq s))
       \<and> length (object_list p) \<le> 10
       \<and> (10 \<le> length (get_queryset rq s) - (number p - 1) * 10 \<longrightarrow> length (object_list p) = 10)
       \<and> 1 \<le> number p"
proof -
  from assms have "paginate_queryset (get_queryset rq s) paginate_by (GET_page rq) = Inr p"
    by (auto simp: EpiList_def login_required_def split: option.splits sum.splits)
  from paginate_queryset_slice [OF this]
  show ?thesis by (simp add: paginate_by_def)
qed

theorem EpiList_page_size_witness:
  "EpiList (get_rq 1 None None) shop12 =
     (Inr (Render ''epi_shops/epi_list.html''
        (EpiListContext \<lparr>object_list = take 10 catalog12, number = 1, num_pages = 2\<rparr>)), shop12)
   \<and> length (take 10 catalog12) = 10
   \<and> EpiList (get_rq 1 None (Some (PageInt 2))) shop12 =
     (Inr (Render ''epi_shops/epi_list.html''
        (EpiListContext \<lparr>object_list = drop 10 catalog12, number = 2, num_pages = 2\<rparr>)), shop12)
   \<and> length (drop 10 catalog12) = 2"
  using EpiList_page_size [OF EpiList_shop12_page1] EpiList_page_size [OF EpiList_shop12_page2]
    EpiList_shop12_page1 EpiList_shop12_page2
  by (simp add: get_queryset_def get_rq_def shop12_def catalog12_def)

text \<open>
  Claim C10. For every authenticated request the home page view ends in \<^verbatim>\<open>NameError\<close>
  for the name \<^verbatim>\<open>Paginator\<close>, with the database unchanged: it never renders.
\<close>

theorem index_raises_NameError:
  assumes "user rq = Some u"
  shows "index rq s = (Inl (NameError ''Paginator''), s)"
proof -
  have "lookup_name ''Paginator'' = Inl (NameError ''Paginator'')"
    by (simp add: lookup_name_def module_globals_def builtins_def)
  then show ?thesis
    using assms by (simp add: index_def login_required_def)
qed

theorem index_raises_NameError_witness:
  "index (get_rq 1 (Some ''helm'') (Some (PageInt 1))) mixed_cart = (Inl (NameError ''Paginator''), mixed_cart)"
  using index_raises_NameError [of "get_rq 1 (Some ''helm'') (Some (PageInt 1))" 1 mixed_cart]
  by (simp add: get_rq_def)

end
